theory Spec2Isabelle
  imports Main "HOL-Library.Word"
begin

section \<open>Stats tracker: the capacity check (src/stats/target_stats.go)\<close>

text \<open>
  \<open>cos.NodeStateFlags\<close> is a bit-flag word whose constants are declared in package
  \<open>cos\<close>; every constant is one distinct bit.  A flag word is therefore
  represented by the set of the flags it holds: \<open>0\<close> is the empty set, \<open>|\<close> is union
  and \<open>IsSet\<close> is membership.  Only the three flags \<open>_cap\<close> names get a constructor of
  their own.
\<close>

datatype NodeStateFlag = OOS | LowCapacity | DiskFault | OtherFlag nat

type_synonym NodeStateFlags = "NodeStateFlag set"

text \<open>
  \<open>fs.CapStatus\<close>: the fields \<open>_cap\<close> reads, and the results of its two methods
  \<open>IsOOS()\<close> and \<open>Err()\<close> (both declared in package \<open>fs\<close>).
\<close>

record CapStatus =
  PctMax :: "32 word"
  TotalUsed :: "64 word"
  TotalAvail :: "64 word"
  IsOOS :: bool
  Err :: "string option"

text \<open>What \<open>fs.CapPeriodic\<close> hands back: \<open>(cs, updated, err, errCap)\<close>.\<close>

record CapPeriodic =
  cs :: CapStatus
  updated :: bool
  err :: "string option"
  errCap :: "string option"

text \<open>
  The part of \<open>Trunner\<close> that \<open>_cap\<close> reads and writes.  \<open>oos_calls\<close> records each call
  of \<open>r.t.OOS\<close> by whether its first argument was a snapshot (\<open>True\<close>) or \<open>nil\<close>;
  \<open>errlog\<close> is what went to \<open>nlog.Errorln\<close>.
\<close>

record Trunner =
  "next" :: int
  cs_last :: int
  lines :: "string list"
  oos_calls :: "bool list"
  errlog :: "string list"

text \<open>
  The surroundings of one call: the configured cleanup watermark, the log interval
  constant, \<open>TargetCDF.HasAlerts()\<close>, the current \<open>nodeStateFlags()\<close>, the log lines
  the per-mountpath loop produces, and the text of the capacity-exceeded error.
\<close>

record CapEnv =
  CleanupWM :: "64 word"
  maxCapLogInterval :: int
  HasAlerts :: bool
  nodeStateFlags :: NodeStateFlags
  mpathLines :: "string list"
  flagsString :: string
  errCapExceeded :: string

text \<open>
  \<open>_cap\<close> in four parts.  \<open>cap_xspace\<close> is the block under \<open>// target to run x-space\<close>:
  it returns the capacity error as it stands afterwards.  The comparison is the one
  of the source, between \<open>int32\<close> values.
\<close>

definition cap_xspace :: "CapEnv \<Rightarrow> CapPeriodic \<Rightarrow> Trunner \<Rightarrow> string option \<times> Trunner" where
  "cap_xspace e c r =
     (if errCap c \<noteq> None then (errCap c, r\<lparr>oos_calls := oos_calls r @ [updated c]\<rparr>)
      else if sint (ucast (CleanupWM e) :: 32 word) < sint (PctMax (cs c))
        then (Some (errCapExceeded e), r\<lparr>oos_calls := oos_calls r @ [updated c]\<rparr>)
      else (None, r))"

text \<open>
  The block that logs the mountpaths, periodically or on error; what the loop over
  the mountpaths appends is \<open>mpathLines\<close>.
\<close>

definition cap_log :: "CapEnv \<Rightarrow> int \<Rightarrow> bool \<Rightarrow> string option \<Rightarrow> Trunner \<Rightarrow> Trunner" where
  "cap_log e now hasAlerts ec r =
     (if now \<ge> min (next r) (cs_last r + maxCapLogInterval e) \<or> ec \<noteq> None \<or> hasAlerts
      then r\<lparr>lines := lines r @ mpathLines e, cs_last := now\<rparr>
      else r)"

text \<open>The final \<open>// cap alert\<close> block, entered with the \<open>clr\<close> computed so far.\<close>

definition cap_alert :: "CapStatus \<Rightarrow> NodeStateFlags \<Rightarrow> NodeStateFlags \<times> NodeStateFlags" where
  "cap_alert s clr =
     (if IsOOS s then ({OOS}, clr)
      else if Err s \<noteq> None then ({} \<union> {LowCapacity}, {OOS})
      else ({}, {OOS} \<union> {LowCapacity}))"

text \<open>\<open>_cap\<close> itself, with its two early returns.\<close>

definition cap :: "CapEnv \<Rightarrow> int \<Rightarrow> CapPeriodic \<Rightarrow> Trunner
    \<Rightarrow> Trunner \<times> NodeStateFlags \<times> NodeStateFlags" where
  "cap e now c r =
     (case err c of
        Some msg \<Rightarrow> (r\<lparr>errlog := errlog r @ [msg]\<rparr>, {}, {})
      | None \<Rightarrow>
          if \<not> updated c \<and> errCap c = None then (r, {}, {})
          else
            let hasAlerts = (updated c \<and> HasAlerts e);
                (ec, r1) = cap_xspace e c r;
                r2 = cap_log e now hasAlerts ec r1;
                flags = nodeStateFlags e;
                r3 = (if hasAlerts
                      then r2\<lparr>lines := lines r2 @
                             [''Warning: node-state-flags'', flagsString e,
                              ''(check mountpath alerts!)'']\<rparr>
                      else r2);
                clr = (if \<not> hasAlerts \<and> DiskFault \<in> flags \<and> updated c
                       then {} \<union> {DiskFault} else {});
                (st, cl) = cap_alert (cs c) clr
            in (r3, st, cl))"

section \<open>Local object metadata (src/cluster/lom.go)\<close>

subsection \<open>Data\<close>

text \<open>
  The checksum-type and property constants of package \<open>cmn\<close> that the code compares
  against; \<open>ChecksumMD5\<close> stands for a configured type other than these.
\<close>

datatype cktype = PropInherit | ChecksumNone | ChecksumXXHash | ChecksumMD5

text \<open>A \<open>cmn.Cksummer\<close> is \<open>nil\<close> or a (type, value) pair; \<open>Get()\<close> returns the pair.\<close>

type_synonym Cksummer = "(cktype \<times> string) option"

text \<open>
  \<open>lmeta\<close>, field by field.  \<open>size\<close>, \<open>atime\<close> and \<open>atimefs\<close> are \<open>int64\<close>; the code
  only compares and copies them, so they are integers here.  \<open>copies\<close> (a map from
  FQN to mountpath) is an association list.
\<close>

record lmeta =
  uname :: string
  version :: string
  size_md :: int
  atime :: int
  atimefs :: int
  bckID :: nat
  cksum :: Cksummer
  copies :: "(string \<times> string) list"

text \<open>The bucket-metadata snapshot, as far as it is used: \<open>bmd.Exists(bucket, bckID, local)\<close>.\<close>

type_synonym BMD = "string \<Rightarrow> nat \<Rightarrow> bool \<Rightarrow> bool"

text \<open>
  \<open>LOM\<close>.  \<open>BckProps\<close> and \<open>config\<close> appear through the fields that are read
  (\<open>BckProps.Cksum.Type\<close>, \<open>Config().Cksum.Type\<close>, \<open>BckProps.BID\<close>), \<open>ParsedFQN\<close> through
  its mountpath and digest.
\<close>

record LOM =
  md :: lmeta
  FQN :: string
  Bucket :: string
  Objname :: string
  HrwFQN :: string
  bmd :: BMD
  BckProps_Cksum_Type :: cktype
  Config_Cksum_Type :: cktype
  BckProps_BID :: nat
  MpathInfo :: string
  Digest :: "64 word"
  BckIsLocal :: bool
  BadCksum :: bool
  exists :: bool
  loaded :: bool

text \<open>
  Errors of the operating system: the two the code tests for by name, and \<open>EIO\<close> for
  any other.  \<open>os.IsNotExist\<close> holds of \<open>ENOENT\<close> only.
\<close>

datatype errno = ENODATA | ENOENT | EIO

definition IsNotExist :: "errno \<Rightarrow> bool" where
  "IsNotExist e = (e = ENOENT)"

record finfo =
  fi_size :: int
  fi_atime :: int
  fi_mtime :: int

text \<open>
  A cache stripe (\<open>fs.LomCache\<close>, a \<open>sync.Map\<close> from uname to \<open>*lmeta\<close>) is an
  association list with one pair per key; the list order is the order in which
  \<open>Range\<close> happens to visit the entries.
\<close>

type_synonym LomCache = "(string \<times> lmeta) list"

definition cache_Load :: "LomCache \<Rightarrow> string \<Rightarrow> lmeta option" where
  "cache_Load c k = map_of c k"

definition cache_Delete :: "LomCache \<Rightarrow> string \<Rightarrow> LomCache" where
  "cache_Delete c k = filter (\<lambda>p. fst p \<noteq> k) c"

definition cache_Store :: "LomCache \<Rightarrow> string \<Rightarrow> lmeta \<Rightarrow> LomCache" where
  "cache_Store c k v = (k, v) # filter (\<lambda>p. fst p \<noteq> k) c"

text \<open>
  Everything outside the LOM that the operations read or write.
  \<^item> \<open>caches mpath idx\<close>: the stripe \<open>idx\<close> of a mountpath;
    \<open>availablePaths\<close>: the mountpaths \<open>fs.Mountpaths.Get()\<close> returns.
  \<^item> \<open>xattrs fqn\<close>: what reading the metadata xattr of \<open>fqn\<close> gives: an error, or the
    stored record (none for \<open>nil\<close>).
  \<^item> \<open>stat fqn\<close>: the result of \<open>os.Stat\<close>.
  \<^item> \<open>persist_err fqn\<close>: the error writing the xattr of \<open>fqn\<close> would meet, if any;
    \<open>chtimes_err\<close> likewise for \<open>os.Chtimes\<close>.
  \<^item> \<open>xxhash fqn\<close>: the outcome of hashing the file's content (an error text or the
    hex digest).
  \<^item> \<open>fshc\<close>: the calls of \<open>T.FSHC\<close> made so far.
  \<^item> \<open>Uname2Bo\<close> and \<open>hrw_fqn\<close>: the helpers \<open>Uname2Bo\<close> and \<open>HrwFQN\<close> of the
    package, whose results are taken as given.
\<close>

record world =
  caches :: "string \<Rightarrow> nat \<Rightarrow> LomCache"
  availablePaths :: "string list"
  xattrs :: "string \<Rightarrow> errno + lmeta option"
  stat :: "string \<Rightarrow> errno + finfo"
  persist_err :: "string \<Rightarrow> errno option"
  chtimes_err :: "string \<Rightarrow> bool"
  xxhash :: "string \<Rightarrow> string + string"
  fshc :: "(errno \<times> string) list"
  Uname2Bo :: "string \<Rightarrow> string \<times> string"
  hrw_fqn :: "string \<Rightarrow> string \<Rightarrow> bool \<Rightarrow> string + string"

text \<open>
  \<open>cmn.Assert\<close> panics when its condition is false (\<open>cmn.Dassert\<close> is its debug-build
  twin and is left out); a \<open>nil\<close> dereference panics too.  A panic is a result.
\<close>

datatype panic = AssertFailed | NilDeref

text \<open>The error strings the operations return, by kind; \<open>None\<close> is the empty string.\<close>

datatype lomerr =
    ErrLmfs errno
  | ErrMeta errno
  | ErrStat errno
  | ErrSize int int
  | BadCksumErr Cksummer
  | ErrCompute string
  | ErrPersist errno
  | ErrAtoi

subsection \<open>Helpers declared elsewhere\<close>

text \<open>
  Modelled from the spec: \<open>fs.LomCacheMask\<close> is missing; the spec speaks of a small
  fixed power-of-two number of stripes, the hash masked.
\<close>

definition LomCacheMask :: "64 word" where
  "LomCacheMask = 63"

text \<open>
  Modelled from the spec: \<open>cmn.EqCksum\<close> and \<open>cmn.NewCksum\<close> are missing.  Two checksums
  are equal when both are present with the same type and value; the code's own
  \<open>recomputeEmptyCksms\<close> case shows that two missing checksums do not count as equal.
\<close>

definition EqCksum :: "Cksummer \<Rightarrow> Cksummer \<Rightarrow> bool" where
  "EqCksum a b = (case (a, b) of (Some x, Some y) \<Rightarrow> x = y | _ \<Rightarrow> False)"

definition NewCksum :: "cktype \<Rightarrow> string \<Rightarrow> Cksummer" where
  "NewCksum t v = Some (t, v)"

text \<open>
  Modelled from the spec: \<open>lmfs\<close> is missing.  It reads the xattr record of the LOM's
  FQN and returns it, or the error of the read; with \<open>populate\<close> the stored fields
  (size, version, atime, checksum, copies: the fields of the on-disk blob) are written
  into the LOM's own metadata, which is then what is returned.
\<close>

definition lmfs :: "bool \<Rightarrow> LOM \<Rightarrow> world \<Rightarrow> (errno + lmeta option) \<times> LOM" where
  "lmfs populate lom w =
     (case xattrs w (FQN lom) of
        Inl e \<Rightarrow> (Inl e, lom)
      | Inr None \<Rightarrow> (Inr None, lom)
      | Inr (Some x) \<Rightarrow>
          if populate then
            let m = (md lom)\<lparr>version := version x, size_md := size_md x, atime := atime x,
                              cksum := cksum x, copies := copies x\<rparr>
            in (Inr (Some m), lom\<lparr>md := m\<rparr>)
          else (Inr (Some x), lom))"

text \<open>
  Modelled from the spec: \<open>Persist\<close> is missing.  It writes the metadata to the xattr
  of the LOM's FQN in one atomic step, or fails and writes nothing.
\<close>

definition Persist :: "LOM \<Rightarrow> world \<Rightarrow> errno option \<times> world" where
  "Persist lom w =
     (case persist_err w (FQN lom) of
        Some e \<Rightarrow> (Some e, w)
      | None \<Rightarrow> (None, w\<lparr>xattrs := (xattrs w)(FQN lom := Inr (Some (md lom)))\<rparr>))"

subsection \<open>Checksum configuration, cache keys\<close>

definition CksumConf :: "LOM \<Rightarrow> cktype" where
  "CksumConf lom =
     (if BckProps_Cksum_Type lom = PropInherit then Config_Cksum_Type lom
      else BckProps_Cksum_Type lom)"

definition Hkey :: "LOM \<Rightarrow> string \<times> nat" where
  "Hkey lom = (uname (md lom), unat (and (Digest lom) LomCacheMask))"

text \<open>
  The stripe \<open>lom.ParsedFQN.MpathInfo.LomCache(idx)\<close> of a LOM, read and written.
\<close>

definition lomcache :: "LOM \<Rightarrow> world \<Rightarrow> LomCache" where
  "lomcache lom w = caches w (MpathInfo lom) (snd (Hkey lom))"

definition set_lomcache :: "LOM \<Rightarrow> LomCache \<Rightarrow> world \<Rightarrow> world" where
  "set_lomcache lom c w =
     w\<lparr>caches := (caches w)(MpathInfo lom := (caches w (MpathInfo lom))(snd (Hkey lom) := c))\<rparr>"

definition ReCache :: "LOM \<Rightarrow> world \<Rightarrow> panic + (LOM \<times> world)" where
  "ReCache lom w =
     (if FQN lom \<noteq> HrwFQN lom then Inl AssertFailed
      else
        let m = (md lom)\<lparr>bckID := BckProps_BID lom\<rparr>
        in Inr (lom\<lparr>loaded := True\<rparr>,
                set_lomcache lom (cache_Store (lomcache lom w) (fst (Hkey lom)) m) w))"

definition Uncache :: "LOM \<Rightarrow> world \<Rightarrow> panic + world" where
  "Uncache lom w =
     (if FQN lom \<noteq> HrwFQN lom then Inl AssertFailed
      else Inr (set_lomcache lom (cache_Delete (lomcache lom w) (fst (Hkey lom))) w))"

subsection \<open>Checksum validation\<close>

text \<open>
  \<open>computeXXHash\<close>: opening the file or reading it may fail (an error text), otherwise
  the digest of the content comes back.
\<close>

definition computeXXHash :: "string \<Rightarrow> world \<Rightarrow> string + string" where
  "computeXXHash fqn w = xxhash w fqn"

text \<open>
  The opening lines shared by both validators: the value of the cached checksum, the
  empty string when there is none, with the assertion that a checksum at hand has a
  non-empty value.
\<close>

definition storedCksum :: "LOM \<Rightarrow> panic + string" where
  "storedCksum lom =
     (case cksum (md lom) of
        None \<Rightarrow> Inr []
      | Some (t, v) \<Rightarrow> if v = [] then Inl AssertFailed else Inr v)"

text \<open>
  The three statements both validators run on a mismatch: set \<open>BadCksum\<close>, build the
  error, \<open>Uncache\<close>.
\<close>

definition mark_bad :: "Cksummer \<Rightarrow> LOM \<Rightarrow> world \<Rightarrow> panic + (lomerr option \<times> LOM \<times> world)" where
  "mark_bad v lom w =
     (let lom1 = lom\<lparr>BadCksum := True\<rparr>
      in (case Uncache lom1 w of
            Inl p \<Rightarrow> Inl p
          | Inr w1 \<Rightarrow> Inr (Some (BadCksumErr v), lom1, w1)))"

definition ValidateDiskChecksum :: "LOM \<Rightarrow> world \<Rightarrow> panic + (lomerr option \<times> LOM \<times> world)" where
  "ValidateDiskChecksum lom w =
     (let cksumType = CksumConf lom in
      if cksumType = ChecksumNone then Inr (None, lom, w)
      else
        (case storedCksum lom of
           Inl p \<Rightarrow> Inl p
         | Inr stored \<Rightarrow>
             if cksumType \<noteq> ChecksumXXHash then Inl AssertFailed
             else
               (case computeXXHash (FQN lom) w of
                  Inl e \<Rightarrow> Inr (Some (ErrCompute e), lom, w)
                | Inr computed \<Rightarrow>
                    if stored = [] then
                      let oldCksm = cksum (md lom);
                          lom1 = lom\<lparr>md := (md lom)\<lparr>cksum := NewCksum cksumType computed\<rparr>\<rparr>
                      in (case Persist lom1 w of
                            (Some e, w1) \<Rightarrow>
                               Inr (Some (ErrPersist e),
                                    lom1\<lparr>md := (md lom1)\<lparr>cksum := oldCksm\<rparr>\<rparr>, w1)
                          | (None, w1) \<Rightarrow>
                               (case ReCache lom1 w1 of
                                  Inl p \<Rightarrow> Inl p
                                | Inr (lom2, w2) \<Rightarrow> Inr (None, lom2, w2)))
                    else
                      let v = NewCksum cksumType computed
                      in if \<not> EqCksum (cksum (md lom)) v then mark_bad v lom w
                         else Inr (None, lom, w))))"

definition ValidateChecksum :: "bool \<Rightarrow> LOM \<Rightarrow> world \<Rightarrow> panic + (lomerr option \<times> LOM \<times> world)" where
  "ValidateChecksum recompute lom w =
     (let cksumType = CksumConf lom in
      if cksumType = ChecksumNone then Inr (None, lom, w)
      else
        (case storedCksum lom of
           Inl p \<Rightarrow> Inl p
         | Inr stored \<Rightarrow>
             (case fst (lmfs False lom w) of
                Inl e \<Rightarrow> Inr (Some (ErrLmfs e), lom, w)
              | Inr mdo \<Rightarrow>
                  let v = (case mdo of None \<Rightarrow> None | Some m \<Rightarrow> cksum m) in
                  if \<not> recompute \<and> cksum (md lom) = None \<and> v = None then Inr (None, lom, w)
                  else
                    let recomputeEmptyCksms = (recompute \<and> v = None \<and> cksum (md lom) = None) in
                    if \<not> recomputeEmptyCksms \<and> \<not> EqCksum (cksum (md lom)) v
                    then mark_bad v lom w
                    else if stored \<noteq> [] \<and> \<not> recompute then Inr (None, lom, w)
                    else ValidateDiskChecksum lom w)))"

subsection \<open>Loading\<close>

definition existsInBucket :: "LOM \<Rightarrow> world \<Rightarrow> panic + (bool \<times> LOM \<times> world)" where
  "existsInBucket lom w =
     (if BckIsLocal lom \<and> exists lom \<and> \<not> bmd lom (Bucket lom) (bckID (md lom)) (BckIsLocal lom)
      then (case Uncache lom w of
              Inl p \<Rightarrow> Inl p
            | Inr w1 \<Rightarrow> Inr (False, lom\<lparr>exists := False\<rparr>, w1))
      else Inr (exists lom, lom, w))"

definition stat_IsNotExist :: "errno + finfo \<Rightarrow> bool" where
  "stat_IsNotExist r = (case r of Inl e \<Rightarrow> IsNotExist e | Inr fi \<Rightarrow> False)"

definition FSHC :: "errno \<Rightarrow> string \<Rightarrow> world \<Rightarrow> world" where
  "FSHC e fqn w = w\<lparr>fshc := fshc w @ [(e, fqn)]\<rparr>"

definition FromFS :: "LOM \<Rightarrow> world \<Rightarrow> lomerr option \<times> LOM \<times> world" where
  "FromFS lom w =
     (let lom0 = lom\<lparr>exists := True\<rparr> in
      (case lmfs True lom0 w of
        (Inl e, lom') \<Rightarrow>
          let lom1 = lom0\<lparr>exists := False\<rparr> in
          if (e = ENODATA \<or> e = ENOENT) \<and> stat_IsNotExist (stat w (FQN lom1)) then (None, lom1, w)
          else if \<not> IsNotExist e then (Some (ErrMeta e), lom1, FSHC e (FQN lom1) w)
          else (None, lom1, w)
      | (Inr mdo, lom1) \<Rightarrow>
          (case stat w (FQN lom1) of
             Inl e \<Rightarrow>
               let lom2 = lom1\<lparr>exists := False\<rparr> in
               if \<not> IsNotExist e then (Some (ErrStat e), lom2, FSHC e (FQN lom2) w)
               else (None, lom2, w)
           | Inr fi \<Rightarrow>
               if size_md (md lom1) \<noteq> fi_size fi
               then (Some (ErrSize (size_md (md lom1)) (fi_size fi)), lom1, w)
               else (None,
                     lom1\<lparr>md := (md lom1)\<lparr>atime := fi_atime fi, atimefs := fi_atime fi\<rparr>\<rparr>,
                     w))))"

text \<open>The slow path of \<open>Load\<close>: everything after the \<open>// slow path\<close> comment.\<close>

definition Load_slow :: "bool \<Rightarrow> bool \<Rightarrow> string \<times> nat \<Rightarrow> LOM \<Rightarrow> world
    \<Rightarrow> (bool \<times> lomerr option) \<times> LOM \<times> world" where
  "Load_slow fromCache add hk lom w =
     (case FromFS lom w of
        (errstr, lom1, w1) \<Rightarrow>
          if errstr = None \<and> exists lom1 then
            let lom2 = lom1\<lparr>md := (md lom1)\<lparr>bckID := BckProps_BID lom1\<rparr>\<rparr> in
            if \<not> add then ((fromCache, errstr), lom2, w1)
            else ((fromCache, errstr), lom2,
                  w1\<lparr>caches := (caches w1)(MpathInfo lom := (caches w1 (MpathInfo lom))
                         (snd hk := cache_Store (caches w1 (MpathInfo lom) (snd hk)) (fst hk) (md lom2)))\<rparr>)
          else ((fromCache, errstr), lom1, w1))"

definition Load :: "bool \<Rightarrow> LOM \<Rightarrow> world \<Rightarrow> panic + ((bool \<times> lomerr option) \<times> LOM \<times> world)" where
  "Load add lom w =
     (let hk = Hkey lom;
          lom0 = lom\<lparr>loaded := True\<rparr>
      in if FQN lom0 = HrwFQN lom0 then
           (case cache_Load (lomcache lom w) (fst hk) of
              Some m \<Rightarrow>
                let lom1 = lom0\<lparr>exists := True, md := m\<rparr>;
                    w1 = (if \<not> add
                          then set_lomcache lom (cache_Delete (lomcache lom w) (fst hk)) w
                          else w)
                in (case existsInBucket lom1 w1 of
                      Inl p \<Rightarrow> Inl p
                    | Inr (ok, lom2, w2) \<Rightarrow>
                        if ok then Inr ((True, None), lom2, w2)
                        else Inr (Load_slow True add hk lom2 w2))
            | None \<Rightarrow> Inr (Load_slow False add hk lom0 w))
         else Inr (Load_slow False False hk lom0 w))"

subsection \<open>Versions\<close>

text \<open>
  \<open>strconv.Atoi\<close> of the Go library: an optional sign, then one or more decimal
  digits, and the value must fit an \<open>int\<close> (64 bits); anything else is an error.
\<close>

definition is_digit :: "char \<Rightarrow> bool" where
  "is_digit c = (c \<in> set ''0123456789'')"

definition digit_val :: "char \<Rightarrow> int" where
  "digit_val c = int (of_char c) - 48"

fun digits_val :: "int \<Rightarrow> string \<Rightarrow> int option" where
  "digits_val acc [] = Some acc"
| "digits_val acc (c # rest) =
     (if is_digit c then digits_val (acc * 10 + digit_val c) rest else None)"

definition Atoi :: "string \<Rightarrow> int option" where
  "Atoi s =
     (let neg = (s \<noteq> [] \<and> hd s = CHR ''-'');
          ds = (if s \<noteq> [] \<and> (hd s = CHR ''-'' \<or> hd s = CHR ''+'') then tl s else s)
      in if ds = [] then None
         else
           (case digits_val 0 ds of
              None \<Rightarrow> None
            | Some n \<Rightarrow>
                let v = (if neg then - n else n)
                in if - (2 ^ 63) \<le> v \<and> v < 2 ^ 63 then Some v else None))"

text \<open>\<open>fmt.Sprintf("%d", n)\<close>: the decimal numeral of \<open>n\<close>.\<close>

fun nat_digits :: "nat \<Rightarrow> string" where
  "nat_digits n =
     (if n < 10 then [''0123456789'' ! n]
      else nat_digits (n div 10) @ [''0123456789'' ! (n mod 10)])"

declare nat_digits.simps [simp del]

definition Sprintf_d :: "int \<Rightarrow> string" where
  "Sprintf_d i = (if i < 0 then CHR ''-'' # nat_digits (nat (- i)) else nat_digits (nat i))"

text \<open>\<open>numVersion + 1\<close> on the 64-bit \<open>int\<close> of the target platform.\<close>

definition int64_add :: "int \<Rightarrow> int \<Rightarrow> int" where
  "int64_add a b = sint (word_of_int a + word_of_int b :: 64 word)"

definition IncObjectVersion :: "LOM \<Rightarrow> world \<Rightarrow> panic + (string \<times> lomerr option)" where
  "IncObjectVersion lom w =
     (if \<not> exists lom then Inr (''1'', None)
      else
        (case fst (lmfs False lom w) of
           Inl e \<Rightarrow> Inr ([], Some (ErrLmfs e))
         | Inr None \<Rightarrow> Inl NilDeref
         | Inr (Some m) \<Rightarrow>
             if version m = [] then Inr (''1'', None)
             else
               (case Atoi (version m) of
                  None \<Rightarrow> Inr ([], Some ErrAtoi)
                | Some numVersion \<Rightarrow> Inr (Sprintf_d (int64_add numVersion 1), None))))"

section \<open>The LOM cache runner (src/cluster/lom.go)\<close>

text \<open>
  The memory pressure the runner asks \<open>memsys\<close> for.  The code names three levels and
  treats every other one alike (\<open>default:\<close>); that one is \<open>MemPressureNormal\<close> here.
\<close>

datatype MemPressure = OOM | MemPressureExtreme | MemPressureHigh | MemPressureNormal

text \<open>A \<open>time.Duration\<close> counts nanoseconds in an \<open>int64\<close>.\<close>

definition Second :: int where "Second = 1000000000"
definition Minute :: int where "Minute = 60 * Second"
definition Hour :: int where "Hour = 60 * Minute"

definition oomEvictAtime :: int where "oomEvictAtime = Minute"
definition oomTimeIntval :: int where "oomTimeIntval = Second * 10"
definition mpeEvictAtime :: int where "mpeEvictAtime = Minute * 5"
definition mpeTimeIntval :: int where "mpeTimeIntval = Minute"
definition mphEvictAtime :: int where "mphEvictAtime = Minute * 10"
definition mphTimeIntval :: int where "mphTimeIntval = Minute * 2"
definition mpnEvictAtime :: int where "mpnEvictAtime = Hour"
definition mpnTimeIntval :: int where "mpnTimeIntval = Minute * 10"

text \<open>The two \<open>switch\<close> statements of \<open>Run\<close>.\<close>

definition evictAtime :: "MemPressure \<Rightarrow> int" where
  "evictAtime p =
     (case p of OOM \<Rightarrow> oomEvictAtime | MemPressureExtreme \<Rightarrow> mpeEvictAtime
      | MemPressureHigh \<Rightarrow> mphEvictAtime | MemPressureNormal \<Rightarrow> mpnEvictAtime)"

definition timeIntval :: "MemPressure \<Rightarrow> int" where
  "timeIntval p =
     (case p of OOM \<Rightarrow> oomTimeIntval | MemPressureExtreme \<Rightarrow> mpeTimeIntval
      | MemPressureHigh \<Rightarrow> mphTimeIntval | MemPressureNormal \<Rightarrow> mpnTimeIntval)"

text \<open>
  \<open>time.Time.Sub\<close> of the Go library: the difference in nanoseconds, held at the
  largest or smallest \<open>Duration\<close> when it does not fit.
\<close>

definition maxDuration :: int where "maxDuration = 2 ^ 63 - 1"
definition minDuration :: int where "minDuration = - (2 ^ 63)"

definition Sub :: "int \<Rightarrow> int \<Rightarrow> int" where
  "Sub t u =
     (if t - u > maxDuration then maxDuration
      else if t - u < minDuration then minDuration
      else t - u)"

text \<open>
  \<open>lomFromLmeta\<close>, as far as its result is used: the FQN of the rebuilt LOM (empty
  when the bucket is in neither half of the bucket metadata) and the error string.
\<close>

definition lomFromLmeta :: "lmeta \<Rightarrow> BMD \<Rightarrow> world \<Rightarrow> string \<times> string option" where
  "lomFromLmeta m b w =
     (let bo = Uname2Bo w (uname m);
          found = (if b (fst bo) (bckID m) True then Some True
                   else if b (fst bo) (bckID m) False then Some False
                   else None)
      in case found of
           None \<Rightarrow> ([], None)
         | Some local \<Rightarrow>
             (case hrw_fqn w (fst bo) (snd bo) local of
                Inl e \<Rightarrow> ([], Some e)
              | Inr f \<Rightarrow> (f, None)))"

text \<open>
  \<open>flushAtime\<close>: nothing when \<open>os.Stat\<close> fails; otherwise \<open>os.Chtimes\<close> with the given
  access time and the file's own modification time, whose failure is only logged.
\<close>

definition flushAtime :: "string \<Rightarrow> int \<Rightarrow> world \<Rightarrow> world" where
  "flushAtime fqn a w =
     (case stat w fqn of
        Inl e \<Rightarrow> w
      | Inr fi \<Rightarrow>
          if chtimes_err w fqn then w
          else w\<lparr>stat := (stat w)(fqn := Inr (fi\<lparr>fi_atime := a, fi_mtime := fi_mtime fi\<rparr>))\<rparr>)"

text \<open>
  The callback \<open>feviat\<close> of \<open>work\<close>, for the stripe \<open>idx\<close> of mountpath \<open>mpath\<close>.  The
  state carried along is the world and the two \<open>atomic.Uint32\<close> counters; the
  boolean tells \<open>Range\<close> whether to go on.
\<close>

definition feviat :: "bool \<Rightarrow> BMD \<Rightarrow> int \<Rightarrow> int \<Rightarrow> string \<Rightarrow> nat \<Rightarrow> string \<times> lmeta
    \<Rightarrow> world \<times> 32 word \<times> 32 word \<Rightarrow> bool \<times> world \<times> 32 word \<times> 32 word" where
  "feviat stopping b now d mpath idx kv st =
     (case st of (w, nevicted, ntotal) \<Rightarrow>
        if stopping then (False, st)
        else
          let m = snd kv;
              ntotal1 = ntotal + 1
          in if Sub now (atime m) < d then (True, w, nevicted, ntotal1)
             else
               let w1 = (if atime m \<noteq> atimefs m
                         then (case lomFromLmeta m b w of
                                 (fqn, None) \<Rightarrow> flushAtime fqn (atime m) w
                               | (fqn, Some e) \<Rightarrow> w)
                         else w);
                   w2 = w1\<lparr>caches := (caches w1)(mpath := (caches w1 mpath)
                            (idx := cache_Delete (caches w1 mpath idx) (fst kv)))\<rparr>
               in (True, w2, nevicted + 1, ntotal1))"

text \<open>\<open>sync.Map.Range\<close>: the callback on each entry in turn, until it returns false.\<close>

fun Range :: "('e \<Rightarrow> 's \<Rightarrow> bool \<times> 's) \<Rightarrow> 'e list \<Rightarrow> 's \<Rightarrow> 's" where
  "Range f [] s = s"
| "Range f (x # xs) s = (case f x s of (go, s1) \<Rightarrow> if go then Range f xs s1 else s1)"

definition lomCaches :: "world \<Rightarrow> (string \<times> nat) list" where
  "lomCaches w =
     concat (map (\<lambda>mp. map (\<lambda>idx. (mp, idx)) [0 ..< Suc (unat LomCacheMask)]) (availablePaths w))"

text \<open>
  \<open>work\<close>.  The source starts one goroutine per stripe and waits for all of them;
  each goroutine deletes from its own stripe only, and the goroutines are run here one
  after the other, in the order of \<open>lomCaches\<close>.
\<close>

definition work_stripe :: "bool \<Rightarrow> BMD \<Rightarrow> int \<Rightarrow> int \<Rightarrow> string \<times> nat
    \<Rightarrow> world \<times> 32 word \<times> 32 word \<Rightarrow> world \<times> 32 word \<times> 32 word" where
  "work_stripe stopping b now d c st =
     Range (feviat stopping b now d (fst c) (snd c)) (caches (fst st) (fst c) (snd c)) st"

definition work :: "bool \<Rightarrow> BMD \<Rightarrow> int \<Rightarrow> int \<Rightarrow> world \<Rightarrow> world \<times> int \<times> int" where
  "work stopping b now d w =
     (case fold (work_stripe stopping b now d) (lomCaches w) (w, 0, 0) of
        (w1, nevicted, ntotal) \<Rightarrow> (w1, int (unat nevicted), int (unat ntotal)))"

text \<open>
  The runner: its \<open>stopped\<close> flag, the timer of \<open>Run\<close> (the duration it is armed
  with, or nothing once it has fired or was stopped), and the lines \<open>Run\<close> writes
  with \<open>glog.Infof\<close> as triples (kept, evicted, timer).
\<close>

record LomCacheRunner =
  stopped :: bool
  timer :: "int option"
  infolog :: "(int \<times> int \<times> int) list"

definition NewLomCacheRunner :: LomCacheRunner where
  "NewLomCacheRunner = \<lparr>stopped = False, timer = None, infolog = []\<rparr>"

text \<open>
  What \<open>select\<close> can receive: the timer's channel, at a moment \<open>now\<close> when the memory
  subsystem reports one pressure before the walk and one after it and the bucket
  owner holds a given snapshot; or the stop channel.
\<close>

datatype event = TimerC MemPressure MemPressure int BMD | StopCh

text \<open>
  The body of \<open>case <-timer.C\<close>.  \<open>minev\<close> is \<open>int(minSize2Evict / unsafe.Sizeof(md))\<close>,
  a matter of memory layout and so a parameter.
\<close>

definition Run_timer :: "int \<Rightarrow> MemPressure \<Rightarrow> MemPressure \<Rightarrow> int \<Rightarrow> BMD \<Rightarrow> LomCacheRunner \<Rightarrow> world
    \<Rightarrow> panic + (LomCacheRunner \<times> world)" where
  "Run_timer minev p1 p2 now b r w =
     (case work (stopped r) b now (evictAtime p1) w of
        (w1, nevicted, ntotal) \<Rightarrow>
          let rd = (if nevicted < minev then (r, mpnTimeIntval)
                    else (r\<lparr>timer := Some (timeIntval p2)\<rparr>, timeIntval p2))
          in if \<not> ntotal \<ge> nevicted then Inl AssertFailed
             else Inr ((fst rd)\<lparr>infolog := infolog (fst rd) @ [(ntotal - nevicted, nevicted, snd rd)]\<rparr>,
                       w1))"

text \<open>
  The loop of \<open>Run\<close> over the events that arrive; the result says whether \<open>Run\<close> has
  returned.  A timer that is not armed delivers nothing, so a timer event finds the
  loop only when the timer is armed, and firing disarms it.
\<close>

fun Run_loop :: "int \<Rightarrow> event list \<Rightarrow> LomCacheRunner \<Rightarrow> world
    \<Rightarrow> panic + (bool \<times> LomCacheRunner \<times> world)" where
  "Run_loop minev [] r w = Inr (False, r, w)"
| "Run_loop minev (StopCh # es) r w = Inr (True, r\<lparr>stopped := True, timer := None\<rparr>, w)"
| "Run_loop minev (TimerC p1 p2 now b # es) r w =
     (case timer r of
        None \<Rightarrow> Run_loop minev es r w
      | Some d \<Rightarrow>
          (case Run_timer minev p1 p2 now b (r\<lparr>timer := None\<rparr>) w of
             Inl p \<Rightarrow> Inl p
           | Inr (r1, w1) \<Rightarrow> Run_loop minev es r1 w1))"

definition Run :: "int \<Rightarrow> event list \<Rightarrow> LomCacheRunner \<Rightarrow> world
    \<Rightarrow> panic + (bool \<times> LomCacheRunner \<times> world)" where
  "Run minev es r w = Run_loop minev es (r\<lparr>timer := Some (Minute * 10)\<rparr>) w"

section \<open>Auxiliary notions\<close>

text \<open>
  Two expressions of \<open>ValidateChecksum\<close> by name, for the proofs: the checksum of the
  record read from the xattr, and the test that sends the call to the mismatch branch.
\<close>

definition xattr_cksum :: "lmeta option \<Rightarrow> Cksummer" where
  "xattr_cksum mdo = (case mdo of None \<Rightarrow> None | Some m \<Rightarrow> cksum m)"

definition cksum_mismatch :: "Cksummer \<Rightarrow> Cksummer \<Rightarrow> bool" where
  "cksum_mismatch cached v = (\<not> (v = None \<and> cached = None) \<and> \<not> EqCksum cached v)"


definition flush_entry :: "BMD \<Rightarrow> lmeta \<Rightarrow> world \<Rightarrow> world" where
  "flush_entry b m w =
     (if atime m \<noteq> atimefs m
      then (case lomFromLmeta m b w of
              (fqn, None) \<Rightarrow> flushAtime fqn (atime m) w
            | (fqn, Some e) \<Rightarrow> w)
      else w)"



section \<open>Concrete inputs\<close>

text \<open>The inputs at which the theorems below are evaluated.\<close>

definition cap_idle :: CapPeriodic where
  "cap_idle = \<lparr>cs = \<lparr>PctMax = 0, TotalUsed = 0, TotalAvail = 0, IsOOS = False, Err = None\<rparr>,
               updated = False, err = None, errCap = None\<rparr>"

definition cap_low :: CapPeriodic where
  "cap_low = \<lparr>cs = \<lparr>PctMax = 85, TotalUsed = 85, TotalAvail = 15, IsOOS = False,
                     Err = Some ''high wm''\<rparr>,
              updated = True, err = None, errCap = Some ''high wm''\<rparr>"

definition cap_env0 :: CapEnv where
  "cap_env0 = \<lparr>CleanupWM = 65, maxCapLogInterval = 1000, HasAlerts = False, nodeStateFlags = {},
               mpathLines = [], flagsString = [], errCapExceeded = ''cap exceeded''\<rparr>"

definition trunner0 :: Trunner where
  "trunner0 = \<lparr>next = 0, cs_last = 0, lines = [], oos_calls = [], errlog = []\<rparr>"

definition md0 :: lmeta where
  "md0 = \<lparr>uname = ''b/o'', version = ''7'', size_md = 1024, atime = 0, atimefs = 0, bckID = 1,
          cksum = None, copies = []\<rparr>"

definition lom0 :: LOM where
  "lom0 = \<lparr>md = md0, FQN = ''/mp1/b/o'', Bucket = ''b'', Objname = ''o'', HrwFQN = ''/mp1/b/o'',
           bmd = (\<lambda>bk bid lc. True), BckProps_Cksum_Type = ChecksumXXHash,
           Config_Cksum_Type = ChecksumXXHash, BckProps_BID = 1, MpathInfo = ''/mp1'', Digest = 5,
           BckIsLocal = True, BadCksum = False, exists = True, loaded = True\<rparr>"

definition world0 :: world where
  "world0 = \<lparr>caches = (\<lambda>mp idx. []), availablePaths = [''/mp1''],
             xattrs = (\<lambda>f. Inl ENOENT), stat = (\<lambda>f. Inl ENOENT), persist_err = (\<lambda>f. None),
             chtimes_err = (\<lambda>f. False), xxhash = (\<lambda>f. Inl ''open''), fshc = [],
             Uname2Bo = (\<lambda>u. (''b'', ''o'')), hrw_fqn = (\<lambda>bk ob lc. Inr ''/mp1/b/o'')\<rparr>"

definition world_ver :: "string \<Rightarrow> world" where
  "world_ver v = world0\<lparr>xattrs := (\<lambda>f. Inr (Some (md0\<lparr>version := v\<rparr>)))\<rparr>"

definition world_hash :: world where
  "world_hash = world0\<lparr>xxhash := (\<lambda>f. Inr ''00000000deadbeef''), persist_err := (\<lambda>f. Some EIO)\<rparr>"

definition md_ck :: "string \<Rightarrow> lmeta" where
  "md_ck c = md0\<lparr>cksum := Some (ChecksumXXHash, c)\<rparr>"

definition lom_ck :: LOM where
  "lom_ck = lom0\<lparr>md := md_ck ''aaaa''\<rparr>"

definition lom_copy :: LOM where
  "lom_copy = lom_ck\<lparr>FQN := ''/mp2/b/o''\<rparr>"

definition world_mis :: world where
  "world_mis = world0\<lparr>xattrs := (\<lambda>f. Inr (Some (md_ck ''bbbb''))),
                       caches := (\<lambda>mp idx. if mp = ''/mp1'' \<and> idx = 5
                                            then [(''b/o'', md_ck ''aaaa'')] else [])\<rparr>"

definition lom_nock :: LOM where
  "lom_nock = lom0\<lparr>BckProps_Cksum_Type := ChecksumNone\<rparr>"

definition world_nox :: world where
  "world_nox = world0\<lparr>xattrs := (\<lambda>f. Inl ENODATA),
                       stat := (\<lambda>f. Inr \<lparr>fi_size = 1024, fi_atime = 7, fi_mtime = 3\<rparr>)\<rparr>"

definition world_first :: world where
  "world_first = world0\<lparr>xxhash := (\<lambda>f. Inr ''00000000deadbeef''),
                         xattrs := (\<lambda>f. Inr (Some md0))\<rparr>"

definition lom_bad :: LOM where
  "lom_bad = lom_ck\<lparr>BadCksum := True\<rparr>"

definition world_bad :: world where
  "world_bad = set_lomcache lom_ck (cache_Delete (lomcache lom_ck world_mis) ''b/o'') world_mis"




section \<open>Properties of the capacity check\<close>

lemma cap_alert_cases:
  "cap_alert s clr =
     (if IsOOS s then ({OOS}, clr)
      else if Err s \<noteq> None then ({LowCapacity}, {OOS})
      else ({}, {OOS, LowCapacity}))"
  by (simp add: cap_alert_def insert_commute)

text \<open>
  C9, as amended.  When the capacity refresh reports no error of its own and either
  refreshed the snapshot or reports a capacity error, \<open>_cap\<close> returns these flags:
  out of space sets \<open>OOS\<close> (and clears nothing but, possibly, \<open>DiskFault\<close>); otherwise
  a non-nil \<open>cs.Err()\<close> sets \<open>LowCapacity\<close> and clears \<open>OOS\<close>; otherwise nothing is set
  and both \<open>OOS\<close> and \<open>LowCapacity\<close> are cleared.
\<close>

theorem cap_flags:
  assumes "err c = None" and "updated c \<or> errCap c \<noteq> None"
  shows "snd (cap e now c r) =
           (if IsOOS (cs c)
              then ({OOS}, if \<not> HasAlerts e \<and> DiskFault \<in> nodeStateFlags e \<and> updated c
                           then {DiskFault} else {})
            else if Err (cs c) \<noteq> None then ({LowCapacity}, {OOS})
            else ({}, {OOS, LowCapacity}))"
  using assms
  by (auto simp: cap_def cap_alert_cases Let_def split: prod.splits)

theorem cap_flags_witness:
  "err cap_low = None \<and> (updated cap_low \<or> errCap cap_low \<noteq> None) \<and>
   snd (cap cap_env0 5 cap_low trunner0) = ({LowCapacity}, {OOS})"
  using cap_flags [of cap_low cap_env0 5 trunner0]
  by (simp add: cap_low_def)

text \<open>
  C9 as stated fails on a check that finds nothing to do (no refresh, no capacity
  error): the snapshot is not out of space and has no error, yet neither \<open>OOS\<close> nor
  \<open>LowCapacity\<close> is cleared; both flag words come back empty.
\<close>

theorem cap_idle_counterexample:
  "\<not> IsOOS (cs cap_idle) \<and> Err (cs cap_idle) = None \<and>
   snd (cap cap_env0 5 cap_idle trunner0) = ({}, {})"
  by (simp add: cap_def cap_idle_def)

section \<open>Properties of \<open>IncObjectVersion\<close>\<close>


lemma lmfs_False: "fst (lmfs False lom w) = xattrs w (FQN lom)"
  by (simp add: lmfs_def split: sum.splits option.splits)


text \<open>
  \<open>Atoi\<close> reads back what \<open>Sprintf\<close> writes, so every numeral in range is a stored
  version the theorem speaks about.
\<close>

lemma digit_table:
  assumes "d < 10"
  shows "is_digit (''0123456789'' ! d) \<and> digit_val (''0123456789'' ! d) = int d
         \<and> ''0123456789'' ! d \<noteq> CHR ''-'' \<and> ''0123456789'' ! d \<noteq> CHR ''+''"
proof -
  from assms have "d \<in> {0, 1, 2, 3, 4, 5, 6, 7, 8, 9}" by auto
  then show ?thesis by (auto simp: is_digit_def digit_val_def)
qed

lemma digits_val_append:
  "digits_val acc (xs @ ys) = (case digits_val acc xs of None \<Rightarrow> None | Some a \<Rightarrow> digits_val a ys)"
  by (induction xs arbitrary: acc) auto

lemma digits_val_nat_digits:
  "\<exists>k. digits_val acc (nat_digits n) = Some (acc * 10 ^ k + int n)"
proof (induction n arbitrary: acc rule: nat_digits.induct)
  case (1 n)
  show ?case
  proof (cases "n < 10")
    case True
    then have "digits_val acc (nat_digits n) = Some (acc * 10 ^ 1 + int n)"
      using digit_table [of n] by (simp add: nat_digits.simps)
    then show ?thesis by blast
  next
    case False
    then obtain k where k: "digits_val acc (nat_digits (n div 10)) = Some (acc * 10 ^ k + int (n div 10))"
      using 1 by blast
    have d: "n mod 10 < 10" by simp
    have "nat_digits n = nat_digits (n div 10) @ [''0123456789'' ! (n mod 10)]"
      using False by (subst nat_digits.simps) simp
    then have "digits_val acc (nat_digits n) =
        Some ((acc * 10 ^ k + int (n div 10)) * 10 + int (n mod 10))"
      using k digit_table [OF d] by (simp add: digits_val_append)
    also have "(acc * 10 ^ k + int (n div 10)) * 10 + int (n mod 10) = acc * 10 ^ Suc k + int n"
      by (simp add: algebra_simps zdiv_int zmod_int)
    finally show ?thesis by blast
  qed
qed

lemma nat_digits_hd:
  "nat_digits n \<noteq> [] \<and> hd (nat_digits n) \<noteq> CHR ''-'' \<and> hd (nat_digits n) \<noteq> CHR ''+''"
proof (induction n rule: nat_digits.induct)
  case (1 n)
  show ?case
  proof (cases "n < 10")
    case True
    then show ?thesis using digit_table [of n] by (simp add: nat_digits.simps)
  next
    case False
    then have "nat_digits n = nat_digits (n div 10) @ [''0123456789'' ! (n mod 10)]"
      by (subst nat_digits.simps) simp
    then show ?thesis using 1 [OF False] by simp
  qed
qed

lemma Atoi_Sprintf_d:
  assumes "- (2 ^ 63) \<le> n" and "n < 2 ^ 63"
  shows "Atoi (Sprintf_d n) = Some n"
proof -
  obtain k where k: "digits_val 0 (nat_digits (nat \<bar>n\<bar>)) = Some (0 * 10 ^ k + int (nat \<bar>n\<bar>))"
    using digits_val_nat_digits by blast
  note h = nat_digits_hd [of "nat \<bar>n\<bar>"]
  show ?thesis
  proof (cases "n < 0")
    case True
    then have "nat (- n) = nat \<bar>n\<bar>" by simp
    then show ?thesis using True k h assms by (simp add: Atoi_def Sprintf_d_def)
  next
    case False
    then have "nat n = nat \<bar>n\<bar>" by simp
    then show ?thesis using False k h assms by (simp add: Atoi_def Sprintf_d_def)
  qed
qed





text \<open>At the largest \<open>int\<close> the sum wraps around.\<close>

lemma IncObjectVersion_wraps:
  "IncObjectVersion lom0 (world_ver ''9223372036854775807'') = Inr (''-9223372036854775808'', None)"
  by (simp add: IncObjectVersion_def lmfs_False world_ver_def lom0_def Atoi_def is_digit_def digit_val_def int64_add_def Sprintf_d_def nat_digits.simps)

section \<open>Properties of checksum validation\<close>




lemma mark_bad_hrw:
  "FQN lom = HrwFQN lom \<Longrightarrow>
   mark_bad v lom w = Inr (Some (BadCksumErr v), lom\<lparr>BadCksum := True\<rparr>,
     set_lomcache lom (cache_Delete (lomcache lom w) (fst (Hkey lom))) w)"
  by (simp add: mark_bad_def Uncache_def Let_def Hkey_def lomcache_def set_lomcache_def)

text \<open>
  C10.  When \<open>ValidateDiskChecksum\<close> finds no cached checksum, computes one and then
  fails to persist it, the cached checksum is put back and the error of \<open>Persist\<close> is
  returned: the LOM, and with it its metadata, is as it was before the call.
\<close>

theorem ValidateDiskChecksum_persist_fails:
  assumes "CksumConf lom = ChecksumXXHash"
    and "cksum (md lom) = None"
    and "xxhash w (FQN lom) = Inr c"
    and "persist_err w (FQN lom) = Some e"
  shows "ValidateDiskChecksum lom w = Inr (Some (ErrPersist e), lom, w)"
  using assms
  by (simp add: ValidateDiskChecksum_def storedCksum_def computeXXHash_def Persist_def Let_def)

theorem ValidateDiskChecksum_persist_fails_witness:
  "ValidateDiskChecksum lom0 world_hash = Inr (Some (ErrPersist EIO), lom0, world_hash)"
proof -
  have "CksumConf lom0 = ChecksumXXHash" by (simp add: CksumConf_def lom0_def)
  moreover have "cksum (md lom0) = None" by (simp add: lom0_def md0_def)
  moreover have "xxhash world_hash (FQN lom0) = Inr ''00000000deadbeef''" by (simp add: world_hash_def world0_def)
  moreover have "persist_err world_hash (FQN lom0) = Some EIO" by (simp add: world_hash_def world0_def)
  ultimately show ?thesis by (rule ValidateDiskChecksum_persist_fails)
qed




section \<open>Properties of loading\<close>

text \<open>
  C7, as amended.  When the file exists and reading the xattr record fails with
  no-data, \<open>FromFS\<close> marks the object as not existing, returns a metadata error and
  calls the filesystem health check, whatever the checksum configuration; only when
  the read fails with not-found does it return without error and without that call.
\<close>

theorem FromFS_xattr_missing:
  assumes "stat w (FQN lom) = Inr fi"
  shows "(xattrs w (FQN lom) = Inl ENODATA \<longrightarrow>
            FromFS lom w = (Some (ErrMeta ENODATA), lom\<lparr>exists := False\<rparr>, FSHC ENODATA (FQN lom) w)) \<and>
         (xattrs w (FQN lom) = Inl ENOENT \<longrightarrow>
            FromFS lom w = (None, lom\<lparr>exists := False\<rparr>, w))"
  using assms
  by (simp add: FromFS_def lmfs_def stat_IsNotExist_def IsNotExist_def)

theorem FromFS_xattr_missing_witness:
  "FromFS lom_nock world_nox =
     (Some (ErrMeta ENODATA), lom_nock\<lparr>exists := False\<rparr>, FSHC ENODATA (FQN lom_nock) world_nox) \<and>
   FromFS lom_nock (world_nox\<lparr>xattrs := (\<lambda>f. Inl ENOENT)\<rparr>) =
     (None, lom_nock\<lparr>exists := False\<rparr>, world_nox\<lparr>xattrs := (\<lambda>f. Inl ENOENT)\<rparr>)"
proof -
  have 1: "stat world_nox (FQN lom_nock) = Inr \<lparr>fi_size = 1024, fi_atime = 7, fi_mtime = 3\<rparr>"
    by (simp add: world_nox_def)
  have 2: "stat (world_nox\<lparr>xattrs := (\<lambda>f. Inl ENOENT)\<rparr>) (FQN lom_nock)
             = Inr \<lparr>fi_size = 1024, fi_atime = 7, fi_mtime = 3\<rparr>"
    by (simp add: world_nox_def)
  have 3: "xattrs world_nox (FQN lom_nock) = Inl ENODATA" by (simp add: world_nox_def)
  show ?thesis
    using FromFS_xattr_missing [OF 1] FromFS_xattr_missing [OF 2] 3 by simp
qed

text \<open>
  C7 as stated fails: with checksums disabled, an existing file and a missing xattr
  record, \<open>FromFS\<close> returns an error and the health check is called.
\<close>

theorem FromFS_nocksum_counterexample:
  "CksumConf lom_nock = ChecksumNone \<and>
   stat world_nox (FQN lom_nock) = Inr \<lparr>fi_size = 1024, fi_atime = 7, fi_mtime = 3\<rparr> \<and>
   xattrs world_nox (FQN lom_nock) = Inl ENODATA \<and>
   fst (FromFS lom_nock world_nox) = Some (ErrMeta ENODATA) \<and>
   fshc (snd (snd (FromFS lom_nock world_nox))) = [(ENODATA, ''/mp1/b/o'')]"
  by (simp add: FromFS_def lmfs_def stat_IsNotExist_def IsNotExist_def FSHC_def CksumConf_def
      lom_nock_def lom0_def world_nox_def world0_def)





text \<open>
  On the fast path \<open>Load\<close> does not look at the file system: an entry found in the
  stripe is returned as it is.
\<close>

lemma Load_fast_path:
  assumes "FQN lom = HrwFQN lom"
    and "cache_Load (lomcache lom w) (fst (Hkey lom)) = Some m"
    and "\<not> BckIsLocal lom"
  shows "Load True lom w = Inr ((True, None), lom\<lparr>loaded := True, exists := True, md := m\<rparr>, w)"
  using assms by (simp add: Load_def Let_def existsInBucket_def)

lemma FromFS_caches: "caches (snd (snd (FromFS lom w))) = caches w"
  by (auto simp: FromFS_def FSHC_def Let_def split: prod.splits sum.splits)

lemma Load_slow_no_add: "caches (snd (snd (Load_slow fc False hk lom w))) = caches w"
  using FromFS_caches [of lom w]
  by (auto simp: Load_slow_def Let_def split: prod.splits)

lemma mark_bad_caches_copy:
  "FQN lom \<noteq> HrwFQN lom \<Longrightarrow> mark_bad v lom w = Inl AssertFailed"
  by (simp add: mark_bad_def Uncache_def)

lemma ValidateDiskChecksum_copy:
  assumes "FQN lom \<noteq> HrwFQN lom" and "ValidateDiskChecksum lom w = Inr (e, lom', w')"
  shows "caches w' = caches w"
  using assms
  by (auto simp: ValidateDiskChecksum_def Let_def mark_bad_caches_copy ReCache_def Persist_def
      split: if_splits sum.splits option.splits prod.splits)

lemma ValidateChecksum_copy:
  assumes "FQN lom \<noteq> HrwFQN lom" and "ValidateChecksum rc lom w = Inr (e, lom', w')"
  shows "caches w' = caches w"
  using assms ValidateDiskChecksum_copy [of lom w e lom' w']
  by (auto simp: ValidateChecksum_def Let_def mark_bad_caches_copy
      split: if_splits sum.splits option.splits)

text \<open>
  C4.  A LOM whose FQN is not its HRW FQN never writes a cache stripe: \<open>ReCache\<close> and
  \<open>Uncache\<close> fail their assertion, \<open>Load\<close> (which forces \<open>add\<close> to false) returns
  with all stripes as they were, and so does \<open>ValidateChecksum\<close> whenever it returns.
  Entries are therefore stored by LOMs at their HRW location only.
\<close>

theorem cache_only_at_hrw:
  assumes "FQN lom \<noteq> HrwFQN lom"
  shows "ReCache lom w = Inl AssertFailed \<and> Uncache lom w = Inl AssertFailed \<and>
         (\<exists>r lom' w'. Load add lom w = Inr (r, lom', w') \<and> caches w' = caches w) \<and>
         (\<forall>e lom' w'. ValidateChecksum rc lom w = Inr (e, lom', w') \<longrightarrow> caches w' = caches w)"
proof -
  obtain r l' w' where l: "Load_slow False False (Hkey lom) (lom\<lparr>loaded := True\<rparr>) w = (r, l', w')"
    by (metis prod_cases3)
  then have "caches w' = caches w"
    using Load_slow_no_add [of False "Hkey lom" "lom\<lparr>loaded := True\<rparr>" w] by simp
  then show ?thesis
    using assms l ValidateChecksum_copy [OF assms]
    by (simp add: ReCache_def Uncache_def Load_def Let_def)
qed

theorem cache_only_at_hrw_witness:
  "FQN lom_copy \<noteq> HrwFQN lom_copy \<and>
   ReCache lom_copy world_mis = Inl AssertFailed \<and> Uncache lom_copy world_mis = Inl AssertFailed \<and>
   (\<exists>r lom' w'. Load True lom_copy world_mis = Inr (r, lom', w') \<and> caches w' = caches world_mis)"
proof -
  have 1: "FQN lom_copy \<noteq> HrwFQN lom_copy" by (simp add: lom_copy_def lom_ck_def lom0_def)
  show ?thesis using 1 cache_only_at_hrw [OF 1, of world_mis True True] by blast
qed

section \<open>Validating twice\<close>

lemma cache_Delete_idem: "cache_Delete (cache_Delete c k) k = cache_Delete c k"
  by (simp add: cache_Delete_def)

lemma mark_bad_twice:
  assumes "mark_bad v lom w = Inr (e, lom1, w1)"
  shows "mark_bad v lom1 w1 = Inr (e, lom1, w1) \<and> md lom1 = md lom \<and> FQN lom1 = FQN lom
         \<and> CksumConf lom1 = CksumConf lom \<and> xattrs w1 = xattrs w \<and> xxhash w1 = xxhash w
         \<and> e \<noteq> None"
  using assms
  by (auto simp: mark_bad_def Uncache_def Let_def Hkey_def CksumConf_def
        lomcache_def cache_Delete_idem set_lomcache_def
      split: if_splits)

lemma ValidateDiskChecksum_first_time:
  assumes "CksumConf lom = ChecksumXXHash" and "cksum (md lom) = None"
    and "xxhash w (FQN lom) = Inr c" and "persist_err w (FQN lom) = None"
    and "FQN lom = HrwFQN lom"
  shows "ValidateDiskChecksum lom w =
           Inr (None, lom\<lparr>md := (md lom)\<lparr>cksum := Some (ChecksumXXHash, c)\<rparr>, loaded := True\<rparr>,
                set_lomcache lom
                  (cache_Store (lomcache lom w) (uname (md lom))
                     ((md lom)\<lparr>cksum := Some (ChecksumXXHash, c), bckID := BckProps_BID lom\<rparr>))
                  (w\<lparr>xattrs := (xattrs w)(FQN lom :=
                        Inr (Some ((md lom)\<lparr>cksum := Some (ChecksumXXHash, c)\<rparr>)))\<rparr>))"
  using assms
  by (simp add: ValidateDiskChecksum_def storedCksum_def computeXXHash_def Persist_def Let_def
      ReCache_def NewCksum_def Hkey_def lomcache_def set_lomcache_def)

lemma ValidateDiskChecksum_no_persist:
  assumes "CksumConf lom = ChecksumXXHash" and "cksum (md lom) = None"
    and "xxhash w (FQN lom) = Inr c" and "persist_err w (FQN lom) = Some er"
  shows "ValidateDiskChecksum lom w = Inr (Some (ErrPersist er), lom, w)"
  using assms
  by (simp add: ValidateDiskChecksum_def storedCksum_def computeXXHash_def Persist_def Let_def)

lemma ValidateDiskChecksum_stored:
  assumes "CksumConf lom = ChecksumXXHash" and "cksum (md lom) = Some (t, s)" and "s \<noteq> []"
    and "xxhash w (FQN lom) = Inr c"
  shows "ValidateDiskChecksum lom w =
           (if (t, s) = (ChecksumXXHash, c) then Inr (None, lom, w)
            else mark_bad (Some (ChecksumXXHash, c)) lom w)"
  using assms
  by (auto simp: ValidateDiskChecksum_def storedCksum_def computeXXHash_def Let_def
      NewCksum_def EqCksum_def)

lemma ValidateDiskChecksum_twice:
  assumes "ValidateDiskChecksum lom w = Inr (e, lom1, w1)"
    and "\<forall>c. xxhash w (FQN lom) = Inr c \<longrightarrow> c \<noteq> []"
  shows "ValidateDiskChecksum lom1 w1 = Inr (e, lom1, w1)"
proof (cases "CksumConf lom = ChecksumNone")
  case True
  then show ?thesis using assms(1) by (auto simp: ValidateDiskChecksum_def)
next
  case False
  then have xx: "CksumConf lom = ChecksumXXHash"
    using assms(1) by (auto simp: ValidateDiskChecksum_def Let_def split: sum.splits if_splits)
  show ?thesis
  proof (cases "xxhash w (FQN lom)")
    case (Inl es)
    then show ?thesis using assms(1) xx
      by (auto simp: ValidateDiskChecksum_def Let_def computeXXHash_def split: sum.splits if_splits)
  next
    case (Inr c)
    then have c: "c \<noteq> []" using assms(2) by simp
    show ?thesis
    proof (cases "cksum (md lom)")
      case None
      show ?thesis
      proof (cases "persist_err w (FQN lom)")
        case (Some er)
        then show ?thesis using assms(1) ValidateDiskChecksum_no_persist [OF xx None Inr Some]
          by simp
      next
        case pn: None
        have hrw: "FQN lom = HrwFQN lom"
          using assms(1) xx None Inr pn
          by (auto simp: ValidateDiskChecksum_def storedCksum_def computeXXHash_def Persist_def
              Let_def ReCache_def split: if_splits)
        note first = ValidateDiskChecksum_first_time [OF xx None Inr pn hrw]
        have 1: "CksumConf lom1 = ChecksumXXHash" using assms(1) xx first by (auto simp: CksumConf_def)
        have 2: "cksum (md lom1) = Some (ChecksumXXHash, c)" using assms(1) first by auto
        have 3: "xxhash w1 (FQN lom1) = Inr c" using assms(1) first Inr by (auto simp: set_lomcache_def)
        have "e = None" using assms(1) first by simp
        then show ?thesis using ValidateDiskChecksum_stored [OF 1 2 c 3] by simp
      qed
    next
      case (Some ts)
      obtain t s where ts: "ts = (t, s)" by (cases ts)
      have s: "s \<noteq> []" using assms(1) xx Some ts
        by (auto simp: ValidateDiskChecksum_def storedCksum_def Let_def split: if_splits)
      note st = ValidateDiskChecksum_stored [OF xx Some [unfolded ts] s Inr]
      show ?thesis
      proof (cases "(t, s) = (ChecksumXXHash, c)")
        case True
        then show ?thesis using assms(1) st by simp
      next
        case False
        then have mb: "mark_bad (Some (ChecksumXXHash, c)) lom w = Inr (e, lom1, w1)"
          using assms(1) st by (auto split: if_splits)
        note f = mark_bad_twice [OF mb]
        have 1: "CksumConf lom1 = ChecksumXXHash" using f xx by simp
        have 2: "cksum (md lom1) = Some (t, s)" using f Some ts by simp
        have 3: "xxhash w1 (FQN lom1) = Inr c" using f Inr by simp
        show ?thesis using ValidateDiskChecksum_stored [OF 1 2 s 3] False f by auto
      qed
    qed
  qed
qed

lemma ValidateChecksum_True:
  assumes "CksumConf lom \<noteq> ChecksumNone" and "storedCksum lom = Inr st"
    and "xattrs w (FQN lom) = Inr mdo"
  shows "ValidateChecksum True lom w =
           (if cksum_mismatch (cksum (md lom)) (xattr_cksum mdo)
            then mark_bad (xattr_cksum mdo) lom w
            else ValidateDiskChecksum lom w)"
  using assms
  by (auto simp: ValidateChecksum_def lmfs_False Let_def xattr_cksum_def cksum_mismatch_def)

lemma ValidateDiskChecksum_outcome:
  assumes "ValidateDiskChecksum lom w = Inr (e, lom1, w1)"
    and "CksumConf lom \<noteq> ChecksumNone"
    and "\<forall>c. xxhash w (FQN lom) = Inr c \<longrightarrow> c \<noteq> []"
  shows "CksumConf lom1 = CksumConf lom \<and> FQN lom1 = FQN lom \<and>
         ((md lom1 = md lom \<and> xattrs w1 = xattrs w) \<or>
          (\<exists>c. c \<noteq> [] \<and> cksum (md lom1) = Some (ChecksumXXHash, c) \<and>
                xattrs w1 (FQN lom) = Inr (Some ((md lom)\<lparr>cksum := Some (ChecksumXXHash, c)\<rparr>))))"
proof -
  have xx: "CksumConf lom = ChecksumXXHash"
    using assms(1,2) by (auto simp: ValidateDiskChecksum_def Let_def split: sum.splits if_splits)
  show ?thesis
  proof (cases "xxhash w (FQN lom)")
    case (Inl es)
    then show ?thesis using assms(1) xx
      by (auto simp: ValidateDiskChecksum_def Let_def computeXXHash_def split: sum.splits if_splits)
  next
    case (Inr c)
    then have c: "c \<noteq> []" using assms(3) by simp
    show ?thesis
    proof (cases "cksum (md lom)")
      case None
      show ?thesis
      proof (cases "persist_err w (FQN lom)")
        case (Some er)
        then show ?thesis using assms(1) ValidateDiskChecksum_no_persist [OF xx None Inr Some]
          by simp
      next
        case pn: None
        have hrw: "FQN lom = HrwFQN lom"
          using assms(1) xx None Inr pn
          by (auto simp: ValidateDiskChecksum_def storedCksum_def computeXXHash_def Persist_def
              Let_def ReCache_def split: if_splits)
        note first = ValidateDiskChecksum_first_time [OF xx None Inr pn hrw]
        show ?thesis using assms(1) first c
          by (auto simp: CksumConf_def set_lomcache_def)
      qed
    next
      case (Some ts)
      obtain t s where ts: "ts = (t, s)" by (cases ts)
      have s: "s \<noteq> []" using assms(1) xx Some ts
        by (auto simp: ValidateDiskChecksum_def storedCksum_def Let_def split: if_splits)
      note st = ValidateDiskChecksum_stored [OF xx Some [unfolded ts] s Inr]
      show ?thesis
      proof (cases "(t, s) = (ChecksumXXHash, c)")
        case True
        then show ?thesis using assms(1) st by simp
      next
        case False
        then have mb: "mark_bad (Some (ChecksumXXHash, c)) lom w = Inr (e, lom1, w1)"
          using assms(1) st by (auto split: if_splits)
        show ?thesis using mark_bad_twice [OF mb] by simp
      qed
    qed
  qed
qed

lemma storedCksum_md: "md l2 = md l1 \<Longrightarrow> storedCksum l2 = storedCksum l1"
  by (simp add: storedCksum_def)

text \<open>
  C8, as amended.  Where hashing the file yields a non-empty digest, a second
  \<open>ValidateChecksum(true)\<close> on the state the first one left (nothing modified in
  between) returns what the first call returned, no error in particular when the
  first returned none, and leaves the LOM, the cache and the persisted xattr record as
  the first call left them.
\<close>

theorem ValidateChecksum_twice:
  assumes "ValidateChecksum True lom w = Inr (e, lom1, w1)"
    and "\<forall>c. xxhash w (FQN lom) = Inr c \<longrightarrow> c \<noteq> []"
  shows "ValidateChecksum True lom1 w1 = Inr (e, lom1, w1)"
proof (cases "CksumConf lom = ChecksumNone")
  case True
  then show ?thesis using assms(1) by (auto simp: ValidateChecksum_def)
next
  case cn: False
  obtain st where st: "storedCksum lom = Inr st"
    using assms(1) cn by (cases "storedCksum lom") (auto simp: ValidateChecksum_def)
  show ?thesis
  proof (cases "xattrs w (FQN lom)")
    case (Inl er)
    then show ?thesis using assms(1) cn st
      by (auto simp: ValidateChecksum_def lmfs_False)
  next
    case (Inr mdo)
    note vc = ValidateChecksum_True [OF cn st Inr]
    let ?v = "xattr_cksum mdo"
    show ?thesis
    proof (cases "cksum_mismatch (cksum (md lom)) ?v")
      case True
      then have mb: "mark_bad ?v lom w = Inr (e, lom1, w1)" using assms(1) vc by simp
      note f = mark_bad_twice [OF mb]
      have 1: "CksumConf lom1 \<noteq> ChecksumNone" using f cn by simp
      have 2: "storedCksum lom1 = Inr st" using f st storedCksum_md [of lom1 lom] by simp
      have 3: "xattrs w1 (FQN lom1) = Inr mdo" using f Inr by simp
      show ?thesis using ValidateChecksum_True [OF 1 2 3] True f by simp
    next
      case False
      then have vd: "ValidateDiskChecksum lom w = Inr (e, lom1, w1)" using assms(1) vc by simp
      note o = ValidateDiskChecksum_outcome [OF vd cn assms(2)]
      note t = ValidateDiskChecksum_twice [OF vd assms(2)]
      have 1: "CksumConf lom1 \<noteq> ChecksumNone" using o cn by simp
      from o consider
        (same) "md lom1 = md lom" "xattrs w1 = xattrs w"
        | (fresh) c where "c \<noteq> []" "cksum (md lom1) = Some (ChecksumXXHash, c)"
            "xattrs w1 (FQN lom) = Inr (Some ((md lom)\<lparr>cksum := Some (ChecksumXXHash, c)\<rparr>))"
        by blast
      then show ?thesis
      proof cases
        case same
        have 2: "storedCksum lom1 = Inr st" using same st storedCksum_md [of lom1 lom] by simp
        have 3: "xattrs w1 (FQN lom1) = Inr mdo" using same o Inr by simp
        show ?thesis using ValidateChecksum_True [OF 1 2 3] False same t by simp
      next
        case fresh
        have 2: "storedCksum lom1 = Inr c" using fresh by (simp add: storedCksum_def)
        have 3: "xattrs w1 (FQN lom1) = Inr (Some ((md lom)\<lparr>cksum := Some (ChecksumXXHash, c)\<rparr>))"
          using fresh o by simp
        show ?thesis using ValidateChecksum_True [OF 1 2 3] fresh t
          by (simp add: xattr_cksum_def EqCksum_def cksum_mismatch_def)
      qed
    qed
  qed
qed

theorem ValidateChecksum_twice_witness:
  "\<exists>lom1 w1. ValidateChecksum True lom0 world_first = Inr (None, lom1, w1) \<and>
     cksum (md lom1) = Some (ChecksumXXHash, ''00000000deadbeef'') \<and>
     ValidateChecksum True lom1 w1 = Inr (None, lom1, w1)"
proof -
  have 1: "CksumConf lom0 \<noteq> ChecksumNone" by (simp add: CksumConf_def lom0_def)
  have 2: "storedCksum lom0 = Inr []" by (simp add: storedCksum_def lom0_def md0_def)
  have 3: "xattrs world_first (FQN lom0) = Inr (Some md0)" by (simp add: world_first_def)
  have 4: "\<not> cksum_mismatch (cksum (md lom0)) (xattr_cksum (Some md0))"
    by (simp add: cksum_mismatch_def xattr_cksum_def lom0_def md0_def)
  have 5: "CksumConf lom0 = ChecksumXXHash" by (simp add: CksumConf_def lom0_def)
  have 6: "cksum (md lom0) = None" by (simp add: lom0_def md0_def)
  have 7: "xxhash world_first (FQN lom0) = Inr ''00000000deadbeef''" by (simp add: world_first_def)
  have 8: "persist_err world_first (FQN lom0) = None" by (simp add: world_first_def world0_def)
  have 9: "FQN lom0 = HrwFQN lom0" by (simp add: lom0_def)
  have h: "\<forall>c. xxhash world_first (FQN lom0) = Inr c \<longrightarrow> c \<noteq> []" using 7 by auto
  obtain lom1 w1 where
    f: "ValidateChecksum True lom0 world_first = Inr (None, lom1, w1)"
      "cksum (md lom1) = Some (ChecksumXXHash, ''00000000deadbeef'')"
    using ValidateChecksum_True [OF 1 2 3] 4 ValidateDiskChecksum_first_time [OF 5 6 7 8 9]
    by simp
  from ValidateChecksum_twice [OF f(1) h] f show ?thesis by blast
qed

text \<open>
  C8 as stated fails for an object whose xattr checksum differs from the cached one:
  nothing is modified between the two calls, and the second call returns the mismatch
  error again.
\<close>

theorem ValidateChecksum_twice_counterexample:
  "ValidateChecksum True lom_ck world_mis
     = Inr (Some (BadCksumErr (Some (ChecksumXXHash, ''bbbb''))), lom_bad, world_bad) \<and>
   xattrs world_bad = xattrs world_mis \<and> xxhash world_bad = xxhash world_mis \<and>
   ValidateChecksum True lom_bad world_bad
     = Inr (Some (BadCksumErr (Some (ChecksumXXHash, ''bbbb''))), lom_bad, world_bad)"
proof -
  have 1: "CksumConf lom_ck \<noteq> ChecksumNone" by (simp add: CksumConf_def lom_ck_def lom0_def)
  have 2: "storedCksum lom_ck = Inr ''aaaa''" by (simp add: storedCksum_def lom_ck_def md_ck_def)
  have 3: "xattrs world_mis (FQN lom_ck) = Inr (Some (md_ck ''bbbb''))" by (simp add: world_mis_def)
  have 4: "cksum_mismatch (cksum (md lom_ck)) (xattr_cksum (Some (md_ck ''bbbb'')))"
    by (simp add: cksum_mismatch_def xattr_cksum_def EqCksum_def lom_ck_def md_ck_def)
  have 5: "xattr_cksum (Some (md_ck ''bbbb'')) = Some (ChecksumXXHash, ''bbbb'')"
    by (simp add: xattr_cksum_def md_ck_def)
  have 6: "FQN lom_ck = HrwFQN lom_ck" by (simp add: lom_ck_def lom0_def)
  have 7: "fst (Hkey lom_ck) = ''b/o''" by (simp add: Hkey_def lom_ck_def md_ck_def md0_def)
  have a: "ValidateChecksum True lom_ck world_mis
     = Inr (Some (BadCksumErr (Some (ChecksumXXHash, ''bbbb''))), lom_bad, world_bad)"
    using ValidateChecksum_True [OF 1 2 3] 4 5 mark_bad_hrw [OF 6, of "Some (ChecksumXXHash, ''bbbb'')" world_mis] 7
    by (simp add: lom_bad_def world_bad_def)
  have b: "mark_bad (Some (ChecksumXXHash, ''bbbb'')) lom_ck world_mis
     = Inr (Some (BadCksumErr (Some (ChecksumXXHash, ''bbbb''))), lom_bad, world_bad)"
    using mark_bad_hrw [OF 6, of "Some (ChecksumXXHash, ''bbbb'')" world_mis] 7
    by (simp add: lom_bad_def world_bad_def)
  note t = mark_bad_twice [OF b]
  have 1: "CksumConf lom_bad \<noteq> ChecksumNone" using t 1 by simp
  have 2: "storedCksum lom_bad = Inr ''aaaa''" using t 2 storedCksum_md [of lom_bad lom_ck] by simp
  have 3: "xattrs world_bad (FQN lom_bad) = Inr (Some (md_ck ''bbbb''))" using t 3 by simp
  have 4: "cksum_mismatch (cksum (md lom_bad)) (xattr_cksum (Some (md_ck ''bbbb'')))" using t 4 by simp
  have c: "ValidateChecksum True lom_bad world_bad
     = Inr (Some (BadCksumErr (Some (ChecksumXXHash, ''bbbb''))), lom_bad, world_bad)"
    using ValidateChecksum_True [OF 1 2 3] 4 5 t by simp
  show ?thesis using a c t by simp
qed

section \<open>Properties of the cache runner\<close>















lemma flush_entry_chtimes:
  assumes "atime m \<noteq> atimefs m" and "lomFromLmeta m b w = (fqn, None)"
    and "stat w fqn = Inr fi" and "\<not> chtimes_err w fqn"
  shows "stat (flush_entry b m w) fqn = Inr (fi\<lparr>fi_atime := atime m\<rparr>)"
  using assms by (simp add: flush_entry_def flushAtime_def)




lemma timeIntval_table:
  "timeIntval OOM = 10 * 10 ^ 9 \<and> timeIntval MemPressureExtreme = 60 * 10 ^ 9 \<and>
   timeIntval MemPressureHigh = 2 * 60 * 10 ^ 9 \<and> timeIntval MemPressureNormal = 10 * 60 * 10 ^ 9"
  by (simp add: timeIntval_def oomTimeIntval_def mpeTimeIntval_def mphTimeIntval_def
      mpnTimeIntval_def Minute_def Second_def)

lemma Run_timer_below:
  assumes "work (stopped r) b now (evictAtime p1) w = (w1, ev, tot)"
    and "ev < minev" and "ev \<le> tot"
  shows "Run_timer minev p1 p2 now b r w =
           Inr (r\<lparr>infolog := infolog r @ [(tot - ev, ev, mpnTimeIntval)]\<rparr>, w1)"
  using assms by (simp add: Run_timer_def)

lemma Run_timer_reset:
  assumes "work (stopped r) b now (evictAtime p1) w = (w1, ev, tot)"
    and "\<not> ev < minev" and "ev \<le> tot"
  shows "Run_timer minev p1 p2 now b r w =
           Inr (r\<lparr>timer := Some (timeIntval p2),
                  infolog := infolog r @ [(tot - ev, ev, timeIntval p2)]\<rparr>, w1)"
  using assms by (simp add: Run_timer_def)

lemma work_world0: "work False b now d world0 = (world0, 0, 0)"
proof -
  have r: "work_stripe False b now d c (world0, 0, 0) = (world0, 0, 0)" for c
    by (simp add: work_stripe_def world0_def)
  have "fold (work_stripe False b now d) cl (world0, 0, 0) = (world0, 0, 0)" for cl
    by (induction cl) (simp_all add: r)
  then show ?thesis by (simp add: work_def)
qed

text \<open>
  C2.  A tick that evicts fewer than \<open>minev\<close> entries sets \<open>d\<close> to the normal
  interval and logs it, but the timer is reset in the other branch only: the timer,
  which has just fired, stays unarmed and no further tick happens.  Here three timer
  periods pass over an empty cache, and \<open>Run\<close> has ticked once.
\<close>

theorem Run_no_next_tick:
  "Run 2978 [TimerC MemPressureNormal MemPressureNormal 600000000000 (\<lambda>bk bid lc. True),
             TimerC MemPressureNormal MemPressureNormal 1200000000000 (\<lambda>bk bid lc. True),
             TimerC MemPressureNormal MemPressureNormal 1800000000000 (\<lambda>bk bid lc. True)]
       NewLomCacheRunner world0
     = Inr (False, \<lparr>stopped = False, timer = None, infolog = [(0, 0, 600000000000)]\<rparr>, world0)"
proof -
  have t: "Run_timer 2978 MemPressureNormal MemPressureNormal now b
             \<lparr>stopped = False, timer = None, infolog = []\<rparr> world0
           = Inr (\<lparr>stopped = False, timer = None, infolog = [(0, 0, 600000000000)]\<rparr>, world0)" for now b
    using Run_timer_below [of "\<lparr>stopped = False, timer = None, infolog = []\<rparr>" b now
        MemPressureNormal world0 world0 0 0 2978 MemPressureNormal]
    by (simp add: work_world0 mpnTimeIntval_def Minute_def Second_def)
  show ?thesis
    by (simp add: Run_def NewLomCacheRunner_def t)
qed

end
